theory Spec2Isabelle
  imports Complex_Main "HOL-Library.AList"
begin

section \<open>Job/candidate matching over composite keys (match\_Excel.py)\<close>

subsection \<open>Values: Python floats and spreadsheet cells\<close>

text \<open>
  A Python \<open>float\<close>: a finite double (a rational number; both zeros are \<open>Finite 0\<close>,
  which \<open>\<le>\<close> cannot tell apart), the two infinities, or NaN.
\<close>

datatype pyfloat = Finite rat | PInf | NInf | NaN

text \<open>Python's \<open>a <= b\<close> on floats: every comparison with NaN is false.\<close>

fun float_le :: "pyfloat \<Rightarrow> pyfloat \<Rightarrow> bool" where
  "float_le NaN b = False"
| "float_le a NaN = False"
| "float_le NInf b = True"
| "float_le a PInf = True"
| "float_le (Finite a) (Finite b) = (a \<le> b)"
| "float_le a b = False"

text \<open>Python's \<open>a == b\<close> on floats: NaN equals nothing, itself included.\<close>

definition float_eq :: "pyfloat \<Rightarrow> pyfloat \<Rightarrow> bool" where
  "float_eq a b = (a = b \<and> a \<noteq> NaN)"

text \<open>
  A cell of a table: missing (\<open>pd.isna\<close> holds), a string, or a number. \<open>Num\<close> stands
  for every numeric cell; the \<open>str\<close> of a number never contains an underscore.
\<close>

datatype cell = NA | Text string | Num pyfloat

text \<open>\<open>pd.isna\<close>: a missing cell, or the float NaN.\<close>

fun isna :: "cell \<Rightarrow> bool" where
  "isna NA = True"
| "isna (Num x) = (x = NaN)"
| "isna (Text s) = False"

datatype msg = Invalid_key | Invalid_salary

datatype error = ValueError msg | KeyError string

text \<open>
  The builtin \<open>float\<close> on strings is a parameter \<open>flt\<close> of the model: \<open>None\<close> where Python
  raises \<open>ValueError\<close>, the parsed (rounded) float otherwise.
\<close>

type_synonym float_parser = "string \<Rightarrow> pyfloat option"

text \<open>
  An excerpt of \<open>float\<close> for evaluating examples: its values at five tokens. The examples
  use these tokens, and tokens at which Python raises (such as the letter x), only.
\<close>

definition float_sample :: float_parser where
  "float_sample =
     map_of [(''1.0'', Finite 1), (''2.0'', Finite 2), (''3.0'', Finite 3),
             (''3.5'', Finite (7 / 2)), (''nan'', NaN)]"

subsection \<open>Configuration\<close>

abbreviation JOBS_job_id_col :: string where
  "JOBS_job_id_col \<equiv> ''job_id''"

abbreviation JOBS_composite_key_col :: string where
  "JOBS_composite_key_col \<equiv> ''composit_key''"

abbreviation CANDIDATES_candidate_id_col :: string where
  "CANDIDATES_candidate_id_col \<equiv> ''candidate_id''"

abbreviation CANDIDATES_composite_key_col :: string where
  "CANDIDATES_composite_key_col \<equiv> ''composit_key''"

subsection \<open>Tables\<close>

text \<open>
  A pandas Series (one row, as \<open>iterrows\<close> yields it) is an ordered list of labelled cells;
  a DataFrame is its column labels and its rows of cells.
\<close>

type_synonym series = "(string \<times> cell) list"

record dataframe =
  columns :: "string list"
  rows :: "cell list list"

definition iterrows :: "dataframe \<Rightarrow> series list" where
  "iterrows df = map (zip (columns df)) (rows df)"

text \<open>\<open>row[col]\<close>: raises \<open>KeyError\<close> on a label the row does not have.\<close>

definition series_get :: "series \<Rightarrow> string \<Rightarrow> error + cell" where
  "series_get row col = (case map_of row col of None \<Rightarrow> Inl (KeyError col) | Some v \<Rightarrow> Inr v)"

text \<open>\<open>pd.DataFrame()\<close> and \<open>pd.DataFrame(matches)\<close> for a non-empty list of rows of one table.\<close>

definition DataFrame_empty :: dataframe where
  "DataFrame_empty = \<lparr>columns = [], rows = []\<rparr>"

definition DataFrame_of :: "series list \<Rightarrow> dataframe" where
  "DataFrame_of rs = \<lparr>columns = map fst (hd rs), rows = map (map snd) rs\<rparr>"

text \<open>\<open>df.empty\<close>: some axis has length zero.\<close>

definition df_empty :: "dataframe \<Rightarrow> bool" where
  "df_empty df = (columns df = [] \<or> rows df = [])"

subsection \<open>Key codec: \<open>parse_composite_key\<close>\<close>

text \<open>\<open>s.split(sep)\<close> for a one-character separator, and \<open>sep.join(parts)\<close>.\<close>

fun split_on :: "char \<Rightarrow> string \<Rightarrow> string list" where
  "split_on sep [] = [[]]"
| "split_on sep (c # cs) =
     (if c = sep then [] # split_on sep cs
      else (c # hd (split_on sep cs)) # tl (split_on sep cs))"

fun join :: "string \<Rightarrow> string list \<Rightarrow> string" where
  "join sep [] = []"
| "join sep [p] = p"
| "join sep (p # q # ps) = p @ sep @ join sep (q # ps)"

fun parse_composite_key :: "float_parser \<Rightarrow> cell \<Rightarrow> error + (string \<times> pyfloat \<times> string list)" where
  "parse_composite_key flt NA = Inl (ValueError Invalid_key)"
| "parse_composite_key flt (Num x) = Inl (ValueError Invalid_key)"
| "parse_composite_key flt (Text s) =
     (if CHR ''_'' \<notin> set s \<or> count_list s CHR ''_'' \<noteq> 3 then Inl (ValueError Invalid_key)
      else
        let parts = split_on CHR ''_'' s;
            prefix = join ''_'' (take 3 parts)
        in case flt (parts ! 3) of
             None \<Rightarrow> Inl (ValueError Invalid_salary)
           | Some salary \<Rightarrow> Inr (prefix, salary, parts))"

subsection \<open>Candidate index and matcher: \<open>find_matching_candidates_for_all_jobs\<close>\<close>

record cand_data =
  candidate_id :: cell
  salary :: pyfloat
  full_row :: series

text \<open>
  Python dicts keep insertion order: both mappings are association lists, and assigning
  to a key that is present keeps its position. Job identifiers are compared as cells; a
  missing identifier is the one key \<open>NA\<close>.
\<close>

type_synonym index = "(string \<times> cand_data list) list"

record match_result =
  job_key :: cell
  target_salary :: pyfloat
  matches :: dataframe
  count :: nat

type_synonym results = "(cell \<times> match_result) list"

text \<open>Body of the first loop (lines 67-81): a \<open>ValueError\<close> skips the row, a \<open>KeyError\<close> escapes.\<close>

definition index_step :: "float_parser \<Rightarrow> index \<Rightarrow> series \<Rightarrow> error + index" where
  "index_step flt candidates_by_prefix row =
     (case series_get row CANDIDATES_composite_key_col of
        Inl e \<Rightarrow> Inl e
      | Inr cand_key \<Rightarrow>
          (case parse_composite_key flt cand_key of
             Inl (ValueError m) \<Rightarrow> Inr candidates_by_prefix
           | Inl (KeyError c) \<Rightarrow> Inl (KeyError c)
           | Inr (prefix, cand_salary, parts) \<Rightarrow>
               (let cbp = (if map_of candidates_by_prefix prefix = None
                           then AList.update prefix [] candidates_by_prefix
                           else candidates_by_prefix)
                in case series_get row CANDIDATES_candidate_id_col of
                     Inl e \<Rightarrow> Inl e
                   | Inr cid \<Rightarrow>
                       Inr (AList.map_entry prefix
                             (\<lambda>l. l @ [\<lparr>candidate_id = cid, salary = cand_salary, full_row = row\<rparr>])
                             cbp))))"

fun index_loop :: "float_parser \<Rightarrow> index \<Rightarrow> series list \<Rightarrow> error + index" where
  "index_loop flt candidates_by_prefix [] = Inr candidates_by_prefix"
| "index_loop flt candidates_by_prefix (row # rest) =
     (case index_step flt candidates_by_prefix row of
        Inl e \<Rightarrow> Inl e
      | Inr cbp \<Rightarrow> index_loop flt cbp rest)"

text \<open>The inner loop over a bucket (lines 96-101).\<close>

definition select_matches :: "cand_data list \<Rightarrow> pyfloat \<Rightarrow> series list" where
  "select_matches candidate_list target =
     map full_row (filter (\<lambda>cand_data. float_le (salary cand_data) target) candidate_list)"

text \<open>
  The body of the \<open>try\<close> after the job's key has parsed (lines 95-129); the second parse
  of the \<open>else\<close> branch is kept.
\<close>

definition job_result ::
  "float_parser \<Rightarrow> index \<Rightarrow> cell \<Rightarrow> string \<Rightarrow> pyfloat \<Rightarrow> error + match_result" where
  "job_result flt candidates_by_prefix jkey prefix target =
     (case map_of candidates_by_prefix prefix of
        Some candidate_list \<Rightarrow>
          (let ms = select_matches candidate_list target in
           if ms \<noteq> [] then
             (let match_df = DataFrame_of ms in
              Inr \<lparr>job_key = jkey, target_salary = target,
                   matches = match_df, count = length (rows match_df)\<rparr>)
           else
             Inr \<lparr>job_key = jkey, target_salary = target,
                  matches = DataFrame_empty, count = 0\<rparr>)
      | None \<Rightarrow>
          (case parse_composite_key flt jkey of
             Inl e \<Rightarrow> Inl e
           | Inr (p, target2, parts) \<Rightarrow>
               Inr \<lparr>job_key = jkey, target_salary = target2,
                    matches = DataFrame_empty, count = 0\<rparr>))"

text \<open>Body of the second loop (lines 86-133).\<close>

definition job_step :: "float_parser \<Rightarrow> index \<Rightarrow> results \<Rightarrow> series \<Rightarrow> error + results" where
  "job_step flt candidates_by_prefix res job_row =
     (case series_get job_row JOBS_job_id_col of
        Inl e \<Rightarrow> Inl e
      | Inr job_id \<Rightarrow>
          (case series_get job_row JOBS_composite_key_col of
             Inl e \<Rightarrow> Inl e
           | Inr jkey \<Rightarrow>
               (case parse_composite_key flt jkey of
                  Inl (ValueError m) \<Rightarrow> Inr res
                | Inl (KeyError c) \<Rightarrow> Inl (KeyError c)
                | Inr (prefix, target, parts) \<Rightarrow>
                    (case job_result flt candidates_by_prefix jkey prefix target of
                       Inl (ValueError m) \<Rightarrow> Inr res
                     | Inl (KeyError c) \<Rightarrow> Inl (KeyError c)
                     | Inr r \<Rightarrow> Inr (AList.update job_id r res)))))"

fun jobs_loop :: "float_parser \<Rightarrow> index \<Rightarrow> results \<Rightarrow> series list \<Rightarrow> error + results" where
  "jobs_loop flt candidates_by_prefix res [] = Inr res"
| "jobs_loop flt candidates_by_prefix res (job_row # rest) =
     (case job_step flt candidates_by_prefix res job_row of
        Inl e \<Rightarrow> Inl e
      | Inr res' \<Rightarrow> jobs_loop flt candidates_by_prefix res' rest)"

definition find_matching_candidates_for_all_jobs ::
  "float_parser \<Rightarrow> dataframe \<Rightarrow> dataframe \<Rightarrow> error + results" where
  "find_matching_candidates_for_all_jobs flt jobs_df candidates_df =
     (case index_loop flt [] (iterrows candidates_df) of
        Inl e \<Rightarrow> Inl e
      | Inr candidates_by_prefix \<Rightarrow> jobs_loop flt candidates_by_prefix [] (iterrows jobs_df))"

subsection \<open>Reporter: \<open>export_to_single_excel\<close>\<close>

text \<open>The value of column \<open>c\<close> in a row laid out by \<open>cs\<close>; NaN where the row has no such column.\<close>

definition cell_at :: "string list \<Rightarrow> cell list \<Rightarrow> string \<Rightarrow> cell" where
  "cell_at cs r c = (case map_of (zip cs r) c of None \<Rightarrow> NA | Some v \<Rightarrow> v)"

text \<open>\<open>df[col] = values\<close>: overwrites the column in place when it exists, appends it otherwise.\<close>

definition setitem :: "dataframe \<Rightarrow> string \<Rightarrow> cell list \<Rightarrow> dataframe" where
  "setitem df col vs =
     (if col \<in> set (columns df)
      then df\<lparr>rows := map (\<lambda>(r, v). map (\<lambda>(c, x). if c = col then v else x) (zip (columns df) r))
                            (zip (rows df) vs)\<rparr>
      else df\<lparr>columns := columns df @ [col],
              rows := map (\<lambda>(r, v). r @ [v]) (zip (rows df) vs)\<rparr>)"

text \<open>\<open>df[cols]\<close> (a new frame) and \<open>df[col]\<close> (the column's values).\<close>

definition getitem_cols :: "dataframe \<Rightarrow> string list \<Rightarrow> error + dataframe" where
  "getitem_cols df cs =
     (case filter (\<lambda>c. c \<notin> set (columns df)) cs of
        c # missing \<Rightarrow> Inl (KeyError c)
      | [] \<Rightarrow> Inr \<lparr>columns = cs, rows = map (\<lambda>r. map (cell_at (columns df) r) cs) (rows df)\<rparr>)"

definition getitem_col :: "dataframe \<Rightarrow> string \<Rightarrow> error + cell list" where
  "getitem_col df c =
     (if c \<in> set (columns df) then Inr (map (\<lambda>r. cell_at (columns df) r c) (rows df))
      else Inl (KeyError c))"

text \<open>\<open>pd.concat(dfs, ignore_index=True)\<close>: the columns in order of first appearance.\<close>

definition union_columns :: "string list list \<Rightarrow> string list" where
  "union_columns css = fold (\<lambda>c acc. if c \<in> set acc then acc else acc @ [c]) (concat css) []"

definition concat_frames :: "dataframe list \<Rightarrow> dataframe" where
  "concat_frames dfs =
     (let cs = union_columns (map columns dfs)
      in \<lparr>columns = cs,
          rows = concat (map (\<lambda>df. map (\<lambda>r. map (cell_at (columns df) r) cs) (rows df)) dfs)\<rparr>)"

text \<open>The lambda of line 168 and \<open>Series.apply\<close>.\<close>

definition extracted_salary :: "float_parser \<Rightarrow> cell \<Rightarrow> error + cell" where
  "extracted_salary flt x =
     (if \<not> isna x
      then (case parse_composite_key flt x of
              Inl e \<Rightarrow> Inl e
            | Inr (prefix, sal, parts) \<Rightarrow> Inr (Num sal))
      else Inr NA)"

fun apply_series :: "(cell \<Rightarrow> error + cell) \<Rightarrow> cell list \<Rightarrow> error + cell list" where
  "apply_series f [] = Inr []"
| "apply_series f (x # xs) =
     (case f x of
        Inl e \<Rightarrow> Inl e
      | Inr y \<Rightarrow> (case apply_series f xs of Inl e \<Rightarrow> Inl e | Inr ys \<Rightarrow> Inr (y # ys)))"

text \<open>
  The frames built by the export live in a store, and \<open>all_matches_dfs\<close> holds their
  addresses: a frame changed after it was appended is changed in the list too.
\<close>

type_synonym store = "dataframe list"

definition alloc :: "store \<Rightarrow> dataframe \<Rightarrow> nat \<times> store" where
  "alloc h df = (length h, h @ [df])"

record export_state =
  heap :: store
  all_matches_dfs :: "nat list"
  total_matches :: nat

abbreviation preview_cols :: "string list" where
  "preview_cols \<equiv> [JOBS_job_id_col, CANDIDATES_candidate_id_col,
                    CANDIDATES_composite_key_col, ''extracted_salary'']"

text \<open>
  Body of the loop of lines 150-173. \<open>a\<close> is the frame of \<open>match_df.copy()\<close>, \<open>b\<close> the frame
  of \<open>match_df_with_job[cols]\<close>, which the name \<open>match_df_with_job\<close> denotes from line 160 on.
\<close>

definition export_step :: "float_parser \<Rightarrow> export_state \<Rightarrow> cell \<times> match_result \<Rightarrow> error + export_state" where
  "export_step flt st item =
     (let job_id = fst item; match_df = matches (snd item) in
      if \<not> df_empty match_df then
        (let (a, h1) = alloc (heap st) match_df;
             h2 = h1[a := setitem (h1 ! a) JOBS_job_id_col
                             (replicate (length (rows (h1 ! a))) job_id)];
             cols = JOBS_job_id_col # filter (\<lambda>col. col \<noteq> JOBS_job_id_col) (columns (h2 ! a))
         in case getitem_cols (h2 ! a) cols of
              Inl e \<Rightarrow> Inl e
            | Inr sel \<Rightarrow>
                (let (b, h3) = alloc h2 sel;
                     dfs = all_matches_dfs st @ [b];
                     total = total_matches st + length (rows match_df)
                 in case getitem_col (h3 ! b) CANDIDATES_composite_key_col of
                      Inl e \<Rightarrow> Inl e
                    | Inr keys \<Rightarrow>
                        (case apply_series (extracted_salary flt) keys of
                           Inl e \<Rightarrow> Inl e
                         | Inr sal \<Rightarrow>
                             (let h4 = h3[b := setitem (h3 ! b) ''extracted_salary'' sal]
                              in case getitem_cols (h4 ! b) preview_cols of
                                   Inl e \<Rightarrow> Inl e
                                 | Inr preview \<Rightarrow>
                                     Inr \<lparr>heap = h4, all_matches_dfs = dfs,
                                          total_matches = total\<rparr>))))
      else Inr st)"

fun export_loop :: "float_parser \<Rightarrow> export_state \<Rightarrow> results \<Rightarrow> error + export_state" where
  "export_loop flt st [] = Inr st"
| "export_loop flt st (item # rest) =
     (case export_step flt st item of
        Inl e \<Rightarrow> Inl e
      | Inr st' \<Rightarrow> export_loop flt st' rest)"

text \<open>
  The file system is a parameter: whether the output directory exists, whether it can be
  created, whether \<open>to_excel\<close> succeeds. The outcome is the table written to the file, if
  any, and the returned number.
\<close>

record environment =
  dir_exists :: bool
  makedirs_ok :: bool
  to_excel_ok :: bool

record export_outcome =
  written :: "dataframe option"
  returned :: nat

definition export_to_single_excel ::
  "float_parser \<Rightarrow> environment \<Rightarrow> results \<Rightarrow> error + export_outcome" where
  "export_to_single_excel flt env res =
     (if \<not> dir_exists env \<and> \<not> makedirs_ok env then Inr \<lparr>written = None, returned = 0\<rparr>
      else
        case export_loop flt \<lparr>heap = [], all_matches_dfs = [], total_matches = 0\<rparr> res of
          Inl e \<Rightarrow> Inl e
        | Inr st \<Rightarrow>
            if all_matches_dfs st \<noteq> [] then
              (let combined_df = concat_frames (map (\<lambda>a. heap st ! a) (all_matches_dfs st))
               in if to_excel_ok env
                  then Inr \<lparr>written = Some combined_df, returned = total_matches st\<rparr>
                  else Inr \<lparr>written = None, returned = 0\<rparr>)
            else Inr \<lparr>written = None, returned = 0\<rparr>)"

subsection \<open>Entry point: \<open>main\<close>\<close>

text \<open>
  \<open>main\<close> on the two loaded tables (lines 210-220): no export when the results are empty.
  Loading and the printed summary are left out.
\<close>

definition main ::
  "float_parser \<Rightarrow> environment \<Rightarrow> dataframe \<Rightarrow> dataframe \<Rightarrow> error + export_outcome option" where
  "main flt env jobs_df candidates_df =
     (case find_matching_candidates_for_all_jobs flt jobs_df candidates_df of
        Inl e \<Rightarrow> Inl e
      | Inr res \<Rightarrow>
          if res = [] then Inr None
          else (case export_to_single_excel flt env res of
                  Inl e \<Rightarrow> Inl e
                | Inr outcome \<Rightarrow> Inr (Some outcome)))"

subsection \<open>Reference definitions\<close>

text \<open>
  The index in closed form, to compare the loop with: the entry a candidate row contributes
  (none when its key is malformed), and the bucket of a prefix as the entries of that
  prefix in table order.
\<close>

definition valid_entry :: "float_parser \<Rightarrow> series \<Rightarrow> (string \<times> cand_data) option" where
  "valid_entry flt row =
     (case series_get row CANDIDATES_composite_key_col of
        Inl e \<Rightarrow> None
      | Inr cand_key \<Rightarrow>
          (case parse_composite_key flt cand_key of
             Inl e \<Rightarrow> None
           | Inr (prefix, cand_salary, parts) \<Rightarrow>
               (case series_get row CANDIDATES_candidate_id_col of
                  Inl e \<Rightarrow> None
                | Inr cid \<Rightarrow>
                    Some (prefix, \<lparr>candidate_id = cid, salary = cand_salary, full_row = row\<rparr>))))"

text \<open>The bucket of prefix \<open>p\<close>: the entries of the valid rows with that prefix, in table order.\<close>

definition bucket_of :: "float_parser \<Rightarrow> string \<Rightarrow> series list \<Rightarrow> cand_data list" where
  "bucket_of flt p table =
     map snd (filter (\<lambda>e. fst e = p) (List.map_filter (valid_entry flt) table))"

text \<open>The bucket stored under a prefix; empty when the index has none.\<close>

definition bucket_lookup :: "index \<Rightarrow> string \<Rightarrow> cand_data list" where
  "bucket_lookup idx p = (case map_of idx p of None \<Rightarrow> [] | Some l \<Rightarrow> l)"

text \<open>The record that lines 103-129 store for a job with a parsed key, as one expression.\<close>

definition expected_result :: "cand_data list \<Rightarrow> cell \<Rightarrow> pyfloat \<Rightarrow> match_result" where
  "expected_result bucket jkey target =
     \<lparr>job_key = jkey, target_salary = target,
      matches = (if select_matches bucket target = [] then DataFrame_empty
                 else DataFrame_of (select_matches bucket target)),
      count = length (select_matches bucket target)\<rparr>"

text \<open>The identifier of a job row whose key parses; the identifiers of a jobs table, in order.\<close>

definition parsed_job_id :: "float_parser \<Rightarrow> series \<Rightarrow> cell option" where
  "parsed_job_id flt job_row =
     (case series_get job_row JOBS_job_id_col of
        Inl e \<Rightarrow> None
      | Inr job_id \<Rightarrow>
          (case series_get job_row JOBS_composite_key_col of
             Inl e \<Rightarrow> None
           | Inr jkey \<Rightarrow>
               (case parse_composite_key flt jkey of
                  Inl e \<Rightarrow> None
                | Inr r \<Rightarrow> Some job_id)))"

text \<open>The identifiers of the job rows whose keys parse, in table order.\<close>

definition parsed_job_ids :: "float_parser \<Rightarrow> series list \<Rightarrow> cell list" where
  "parsed_job_ids flt jobs = List.map_filter (parsed_job_id flt) jobs"

text \<open>A table has the columns \<open>cs\<close>, and every row has one cell for each column.\<close>

definition has_columns :: "dataframe \<Rightarrow> string list \<Rightarrow> bool" where
  "has_columns df cs =
     (list_all (\<lambda>c. c \<in> set (columns df)) cs
      \<and> list_all (\<lambda>r. length r = length (columns df)) (rows df))"

subsection \<open>Example tables\<close>

text \<open>
  The end-to-end example of the specification (candidates 1 to 3, job J1), extended by two
  candidates with malformed keys, a job with a ceiling equal to a candidate's, a job whose
  prefix has no bucket, and a job with a malformed key.
\<close>

definition example_candidates :: dataframe where
  "example_candidates =
     \<lparr>columns = [''candidate_id'', ''composit_key''],
      rows = [[Num (Finite 1), Text ''12_3_4_2.0''],
              [Num (Finite 2), Text ''12_3_4_3.5''],
              [Num (Finite 3), Text ''99_9_9_1.0''],
              [Num (Finite 4), Text ''12_3_4''],
              [Num (Finite 5), Text ''12_3_4_x'']]\<rparr>"

text \<open>The jobs of the example.\<close>

definition example_jobs :: dataframe where
  "example_jobs =
     \<lparr>columns = [''job_id'', ''composit_key''],
      rows = [[Text ''J1'', Text ''12_3_4_3.0''],
              [Text ''J2'', Text ''12_3_4_3.5''],
              [Text ''J3'', Text ''7_7_7_1.0''],
              [Text ''J4'', Text ''12_3_4_x'']]\<rparr>"

text \<open>The index and the results of the example.\<close>

definition example_index :: index where
  "example_index =
     [(''12_3_4'',
       [\<lparr>candidate_id = Num (Finite 1), salary = Finite 2,
          full_row = [(''candidate_id'', Num (Finite 1)), (''composit_key'', Text ''12_3_4_2.0'')]\<rparr>,
        \<lparr>candidate_id = Num (Finite 2), salary = Finite (7 / 2),
          full_row = [(''candidate_id'', Num (Finite 2)), (''composit_key'', Text ''12_3_4_3.5'')]\<rparr>]),
      (''99_9_9'',
       [\<lparr>candidate_id = Num (Finite 3), salary = Finite 1,
          full_row = [(''candidate_id'', Num (Finite 3)), (''composit_key'', Text ''99_9_9_1.0'')]\<rparr>])]"

text \<open>The results mapping of the example.\<close>

definition example_results :: results where
  "example_results =
     [(Text ''J1'',
       \<lparr>job_key = Text ''12_3_4_3.0'', target_salary = Finite 3,
        matches = \<lparr>columns = [''candidate_id'', ''composit_key''],
                   rows = [[Num (Finite 1), Text ''12_3_4_2.0'']]\<rparr>,
        count = 1\<rparr>),
      (Text ''J2'',
       \<lparr>job_key = Text ''12_3_4_3.5'', target_salary = Finite (7 / 2),
        matches = \<lparr>columns = [''candidate_id'', ''composit_key''],
                   rows = [[Num (Finite 1), Text ''12_3_4_2.0''],
                           [Num (Finite 2), Text ''12_3_4_3.5'']]\<rparr>,
        count = 2\<rparr>),
      (Text ''J3'',
       \<lparr>job_key = Text ''7_7_7_1.0'', target_salary = Finite 1,
        matches = \<lparr>columns = [], rows = []\<rparr>, count = 0\<rparr>)]"

section \<open>Properties\<close>

subsection \<open>Key codec\<close>

lemma split_on_nonempty: "split_on sep s \<noteq> []"
  by (induction s) auto

lemma split_on_no_sep: "sep \<notin> set a \<Longrightarrow> split_on sep a = [a]"
  by (induction a) auto

lemma split_on_append: "sep \<notin> set a \<Longrightarrow> split_on sep (a @ sep # rest) = a # split_on sep rest"
  by (induction a) auto

lemma length_split_on: "length (split_on sep s) = Suc (count_list s sep)"
  by (induction s) (auto simp: split_on_nonempty)

lemma count_list_notin: "x \<notin> set xs \<Longrightarrow> count_list xs x = 0"
  by (induction xs) auto

lemma join_split_on: "join [sep] (split_on sep s) = s"
proof (induction s)
  case Nil
  then show ?case by simp
next
  case (Cons c cs)
  obtain p ps where ps: "split_on sep cs = p # ps"
    using split_on_nonempty [of sep cs] by (cases "split_on sep cs") auto
  show ?case
  proof (cases "c = sep")
    case True
    with Cons ps show ?thesis by simp
  next
    case False
    with Cons ps show ?thesis by (cases ps) auto
  qed
qed

lemma split_on_tokens: "\<forall>p \<in> set (split_on sep s). sep \<notin> set p"
proof (induction s)
  case Nil
  then show ?case by simp
next
  case (Cons c cs)
  obtain p ps where ps: "split_on sep cs = p # ps"
    using split_on_nonempty [of sep cs] by (cases "split_on sep cs") auto
  with Cons show ?case by auto
qed

lemma parse_valid:
  assumes "CHR ''_'' \<notin> set A" "CHR ''_'' \<notin> set B" "CHR ''_'' \<notin> set C" "CHR ''_'' \<notin> set N"
    and "flt N = Some v"
  shows "parse_composite_key flt (Text (A @ ''_'' @ B @ ''_'' @ C @ ''_'' @ N))
         = Inr (A @ ''_'' @ B @ ''_'' @ C, v, [A, B, C, N])"
  using assms by (simp add: split_on_append split_on_no_sep count_list_notin)

lemma parse_Inr_iff:
  "parse_composite_key flt k = Inr (p, v, parts) \<longleftrightarrow>
     (\<exists>A B C N. k = Text (A @ ''_'' @ B @ ''_'' @ C @ ''_'' @ N)
        \<and> CHR ''_'' \<notin> set A \<and> CHR ''_'' \<notin> set B \<and> CHR ''_'' \<notin> set C \<and> CHR ''_'' \<notin> set N
        \<and> flt N = Some v \<and> p = A @ ''_'' @ B @ ''_'' @ C \<and> parts = [A, B, C, N])"
  (is "?L \<longleftrightarrow> ?R")
proof
  assume ?R
  then show ?L using parse_valid by blast
next
  assume L: ?L
  then obtain s where k: "k = Text s" by (cases k) auto
  from L k have c3: "count_list s CHR ''_'' = 3"
    by (auto split: if_splits)
  then have len: "length (split_on CHR ''_'' s) = 4"
    by (simp add: length_split_on)
  then obtain A B C N where sp: "split_on CHR ''_'' s = [A, B, C, N]"
    by (auto simp: length_Suc_conv numeral_eq_Suc)
  have toks: "CHR ''_'' \<notin> set A" "CHR ''_'' \<notin> set B" "CHR ''_'' \<notin> set C" "CHR ''_'' \<notin> set N"
    using split_on_tokens [of "CHR ''_''" s] sp by auto
  have s: "s = A @ ''_'' @ B @ ''_'' @ C @ ''_'' @ N"
    using join_split_on [of "CHR ''_''" s] sp by simp
  from L k c3 sp have "flt N = Some v" "p = A @ ''_'' @ B @ ''_'' @ C" "parts = [A, B, C, N]"
    by (auto split: if_splits option.splits simp: Let_def)
  with k s toks show ?R by blast
qed

lemma parse_fail_tokens:
  "length (split_on CHR ''_'' s) \<noteq> 4 \<Longrightarrow> parse_composite_key flt (Text s) = Inl (ValueError Invalid_key)"
  by (simp add: length_split_on)

lemma parse_fail_salary:
  "length (split_on CHR ''_'' s) = 4 \<Longrightarrow> flt (split_on CHR ''_'' s ! 3) = None
    \<Longrightarrow> parse_composite_key flt (Text s) = Inl (ValueError Invalid_salary)"
  using count_list_notin [of "CHR ''_''" s] by (auto simp add: length_split_on Let_def)

lemma parse_not_KeyError: "parse_composite_key flt k \<noteq> Inl (KeyError c)"
  by (cases k) (auto simp: Let_def split: option.splits)

text \<open>
  C3. A key of four underscore-free tokens \<open>A_B_C_N\<close> whose fourth token \<open>float\<close> accepts
  parses to the prefix \<open>A_B_C\<close>, the value of \<open>N\<close> and the four tokens, and only such keys
  parse. A missing or empty key, a key that does not have exactly three underscores, and a
  key whose fourth token \<open>float\<close> rejects all fail with a \<open>ValueError\<close>; no key returns a
  value in these cases.
\<close>

theorem parse_composite_key_contract:
  "((parse_composite_key flt k = Inr (p, v, parts)) =
      (\<exists>A B C N. k = Text (A @ ''_'' @ B @ ''_'' @ C @ ''_'' @ N)
         \<and> CHR ''_'' \<notin> set A \<and> CHR ''_'' \<notin> set B \<and> CHR ''_'' \<notin> set C \<and> CHR ''_'' \<notin> set N
         \<and> flt N = Some v \<and> p = A @ ''_'' @ B @ ''_'' @ C \<and> parts = [A, B, C, N]))
   \<and> parse_composite_key flt NA = Inl (ValueError Invalid_key)
   \<and> parse_composite_key flt (Text []) = Inl (ValueError Invalid_key)
   \<and> (count_list s CHR ''_'' \<noteq> 3 \<longrightarrow>
        parse_composite_key flt (Text s) = Inl (ValueError Invalid_key))
   \<and> (length (split_on CHR ''_'' s) \<noteq> 4 \<longrightarrow>
        parse_composite_key flt (Text s) = Inl (ValueError Invalid_key))
   \<and> (CHR ''_'' \<notin> set A' \<and> CHR ''_'' \<notin> set B' \<and> CHR ''_'' \<notin> set C' \<and> CHR ''_'' \<notin> set N'
        \<and> flt N' = None \<longrightarrow>
        parse_composite_key flt (Text (A' @ ''_'' @ B' @ ''_'' @ C' @ ''_'' @ N'))
          = Inl (ValueError Invalid_salary))"
proof -
  have "CHR ''_'' \<notin> set A' \<and> CHR ''_'' \<notin> set B' \<and> CHR ''_'' \<notin> set C' \<and> CHR ''_'' \<notin> set N'
        \<and> flt N' = None \<longrightarrow>
        parse_composite_key flt (Text (A' @ ''_'' @ B' @ ''_'' @ C' @ ''_'' @ N'))
          = Inl (ValueError Invalid_salary)"
    by (simp add: split_on_append split_on_no_sep count_list_notin)
  then show ?thesis
    using parse_Inr_iff [of flt k p v parts] parse_fail_tokens [of s flt]
    by (simp add: length_split_on)
qed

theorem parse_composite_key_contract_witness:
  "parse_composite_key float_sample (Text ''12_3_4_2.0'')
     = Inr (''12_3_4'', Finite 2, [''12'', ''3'', ''4'', ''2.0''])
   \<and> parse_composite_key float_sample (Text ''12_3_4'') = Inl (ValueError Invalid_key)
   \<and> parse_composite_key float_sample (Text ''12_3_4_x'') = Inl (ValueError Invalid_salary)"
  using parse_composite_key_contract
          [of float_sample "Text ''12_3_4_2.0''" "''12_3_4''" "Finite 2"
              "[''12'', ''3'', ''4'', ''2.0'']" "''12_3_4''" "''12''" "''3''" "''4''" "''x''"]
  by (simp add: float_sample_def)

subsection \<open>Auxiliary facts\<close>

lemma bucket_of_Nil [simp]: "bucket_of flt p [] = []"
  by (simp add: bucket_of_def map_filter_simps)

lemma bucket_of_Cons:
  "bucket_of flt p (row # rest) =
     (case valid_entry flt row of
        None \<Rightarrow> bucket_of flt p rest
      | Some (q, e) \<Rightarrow> if q = p then e # bucket_of flt p rest else bucket_of flt p rest)"
  by (auto simp: bucket_of_def map_filter_simps split: option.splits)

lemma index_step_map_of:
  assumes "index_step flt cbp row = Inr cbp'"
  shows "map_of cbp' p =
     (case valid_entry flt row of
        None \<Rightarrow> map_of cbp p
      | Some (q, e) \<Rightarrow>
          if q = p then Some ((case map_of cbp p of None \<Rightarrow> [] | Some l \<Rightarrow> l) @ [e])
          else map_of cbp p)"
  using assms
  by (auto simp: index_step_def valid_entry_def AList.map_of_map_entry AList.update_conv'
      split: sum.splits error.splits option.splits if_splits)

lemma index_step_distinct:
  assumes "index_step flt cbp row = Inr cbp'" and "distinct (map fst cbp)"
  shows "distinct (map fst cbp')"
  using assms
  by (auto simp: index_step_def AList.distinct_map_entry AList.distinct_update
      split: sum.splits error.splits option.splits if_splits)

lemma index_loop_map_of:
  "index_loop flt cbp table = Inr idx \<Longrightarrow>
   map_of idx p =
     (if bucket_of flt p table = [] then map_of cbp p
      else Some ((case map_of cbp p of None \<Rightarrow> [] | Some l \<Rightarrow> l) @ bucket_of flt p table))"
proof (induction table arbitrary: cbp)
  case Nil
  then show ?case by simp
next
  case (Cons row rest)
  from Cons.prems obtain cbp1 where st: "index_step flt cbp row = Inr cbp1"
    and lp: "index_loop flt cbp1 rest = Inr idx"
    by (auto split: sum.splits)
  show ?case
    using Cons.IH [OF lp] index_step_map_of [OF st, of p]
    by (auto simp: bucket_of_Cons split: option.splits)
qed

lemma index_loop_distinct:
  "index_loop flt cbp table = Inr idx \<Longrightarrow> distinct (map fst cbp) \<Longrightarrow> distinct (map fst idx)"
proof (induction table arbitrary: cbp)
  case Nil
  then show ?case by simp
next
  case (Cons row rest)
  from Cons.prems obtain cbp1 where st: "index_step flt cbp row = Inr cbp1"
    and lp: "index_loop flt cbp1 rest = Inr idx"
    by (auto split: sum.splits)
  show ?case
    using Cons.IH [OF lp] index_step_distinct [OF st] Cons.prems(2) by simp
qed

lemma full_row_bucket_of:
  "map full_row (bucket_of flt p table)
     = filter (\<lambda>row. map_option fst (valid_entry flt row) = Some p) table"
  by (induction table) (auto simp: bucket_of_Cons valid_entry_def split: option.splits sum.splits)

lemma select_matches_Nil [simp]: "select_matches [] t = []"
  by (simp add: select_matches_def)

lemma job_result_eq:
  assumes "parse_composite_key flt jkey = Inr (p, t, parts)"
  shows "job_result flt idx jkey p t = Inr (expected_result (bucket_lookup idx p) jkey t)"
  using assms
  by (auto simp: job_result_def expected_result_def bucket_lookup_def DataFrame_of_def Let_def
      split: option.splits)

lemma job_result_count:
  "job_result flt idx jkey p t = Inr r \<Longrightarrow> count r = length (rows (matches r))"
  by (auto simp: job_result_def DataFrame_of_def DataFrame_empty_def Let_def
      split: option.splits sum.splits if_splits)

lemma rows_expected_result:
  "rows (matches (expected_result bucket jkey t)) = map (map snd) (select_matches bucket t)"
  by (simp add: expected_result_def DataFrame_of_def DataFrame_empty_def)

lemma job_step_parsed:
  assumes "series_get row JOBS_job_id_col = Inr jid"
    and "series_get row JOBS_composite_key_col = Inr jkey"
    and "parse_composite_key flt jkey = Inr (p, t, parts)"
  shows "job_step flt idx res row
           = Inr (AList.update jid (expected_result (bucket_lookup idx p) jkey t) res)"
  using assms by (simp add: job_step_def job_result_eq)

lemma job_step_skipped:
  assumes "series_get row JOBS_job_id_col = Inr jid"
    and "series_get row JOBS_composite_key_col = Inr jkey"
    and "parse_composite_key flt jkey = Inl e"
  shows "job_step flt idx res row = Inr res"
  using assms parse_not_KeyError [of flt jkey]
  by (cases e) (auto simp: job_step_def)

lemma job_step_cases:
  assumes "job_step flt idx res row = Inr res'"
  shows "(parsed_job_id flt row = None \<and> res' = res)
       \<or> (\<exists>jid jkey p t parts. parsed_job_id flt row = Some jid
             \<and> series_get row JOBS_job_id_col = Inr jid
             \<and> series_get row JOBS_composite_key_col = Inr jkey
             \<and> parse_composite_key flt jkey = Inr (p, t, parts)
             \<and> res' = AList.update jid (expected_result (bucket_lookup idx p) jkey t) res)"
proof -
  from assms obtain jid jkey where g: "series_get row JOBS_job_id_col = Inr jid"
      "series_get row JOBS_composite_key_col = Inr jkey"
    by (auto simp: job_step_def split: sum.splits)
  show ?thesis
  proof (cases "parse_composite_key flt jkey")
    case (Inl e)
    with g assms job_step_skipped [OF g Inl, of idx res] show ?thesis
      by (simp add: parsed_job_id_def)
  next
    case (Inr x)
    then obtain p t parts where x: "parse_composite_key flt jkey = Inr (p, t, parts)"
      by (cases x) auto
    with g assms job_step_parsed [OF g x, of idx res] show ?thesis
      by (simp add: parsed_job_id_def)
  qed
qed

lemma parsed_job_ids_Cons:
  "parsed_job_ids flt (row # rest) =
     (case parsed_job_id flt row of None \<Rightarrow> parsed_job_ids flt rest
      | Some j \<Rightarrow> j # parsed_job_ids flt rest)"
  by (simp add: parsed_job_ids_def map_filter_simps split: option.splits)

lemma parsed_job_ids_Nil [simp]: "parsed_job_ids flt [] = []"
  by (simp add: parsed_job_ids_def map_filter_simps)

lemma jobs_loop_keys:
  "jobs_loop flt idx res js = Inr res' \<Longrightarrow> distinct (map fst res) \<Longrightarrow>
     distinct (map fst res')
     \<and> set (map fst res') = set (map fst res) \<union> set (parsed_job_ids flt js)
     \<and> (distinct (map fst res @ parsed_job_ids flt js)
          \<longrightarrow> map fst res' = map fst res @ parsed_job_ids flt js)"
proof (induction js arbitrary: res)
  case Nil
  then show ?case by simp
next
  case (Cons row rest)
  from Cons.prems obtain res1 where st: "job_step flt idx res row = Inr res1"
    and lp: "jobs_loop flt idx res1 rest = Inr res'"
    by (auto split: sum.splits)
  from job_step_cases [OF st] show ?case
  proof (elim disjE conjE exE)
    assume "parsed_job_id flt row = None" "res1 = res"
    with Cons.IH [OF lp] Cons.prems(2) show ?thesis
      by (simp add: parsed_job_ids_Cons)
  next
    fix jid jkey p t parts
    assume pj: "parsed_job_id flt row = Some jid"
      and r1: "res1 = AList.update jid (expected_result (bucket_lookup idx p) jkey t) res"
    have d1: "distinct (map fst res1)"
      using r1 Cons.prems(2) by (simp add: AList.distinct_update)
    have k1: "map fst res1 = (if jid \<in> set (map fst res) then map fst res else map fst res @ [jid])"
      using r1 by (simp add: AList.update_keys)
    from Cons.IH [OF lp d1] k1 pj show ?thesis
      by (auto simp: parsed_job_ids_Cons)
  qed
qed

lemma jobs_loop_append:
  "jobs_loop flt idx res (js @ js') =
     (case jobs_loop flt idx res js of Inl e \<Rightarrow> Inl e | Inr r \<Rightarrow> jobs_loop flt idx r js')"
  by (induction js arbitrary: res) (auto split: sum.splits)

lemma index_loop_append:
  "index_loop flt cbp (xs @ ys) =
     (case index_loop flt cbp xs of Inl e \<Rightarrow> Inl e | Inr c \<Rightarrow> index_loop flt c ys)"
  by (induction xs arbitrary: cbp) (auto split: sum.splits)

lemma jobs_loop_map_of_other:
  "jobs_loop flt idx res js = Inr res' \<Longrightarrow> jid \<notin> set (parsed_job_ids flt js)
     \<Longrightarrow> map_of res' jid = map_of res jid"
proof (induction js arbitrary: res)
  case Nil
  then show ?case by simp
next
  case (Cons row rest)
  from Cons.prems obtain res1 where st: "job_step flt idx res row = Inr res1"
    and lp: "jobs_loop flt idx res1 rest = Inr res'"
    by (auto split: sum.splits)
  from job_step_cases [OF st] Cons.prems(2) have "map_of res1 jid = map_of res jid"
    by (auto simp: parsed_job_ids_Cons AList.update_conv')
  moreover from Cons.prems(2) have "jid \<notin> set (parsed_job_ids flt rest)"
    by (auto simp: parsed_job_ids_Cons split: option.splits)
  ultimately show ?case using Cons.IH [OF lp] by simp
qed

lemma jobs_loop_entry:
  assumes "jobs_loop flt idx res (js @ row # js') = Inr res'"
    and "series_get row JOBS_job_id_col = Inr jid"
    and "series_get row JOBS_composite_key_col = Inr jkey"
    and "parse_composite_key flt jkey = Inr (p, t, parts)"
    and "jid \<notin> set (parsed_job_ids flt js')"
  shows "map_of res' jid = Some (expected_result (bucket_lookup idx p) jkey t)"
proof -
  from assms(1) obtain r1 where r1: "jobs_loop flt idx res js = Inr r1"
    and l2: "jobs_loop flt idx r1 (row # js') = Inr res'"
    by (auto simp: jobs_loop_append split: sum.splits)
  from l2 job_step_parsed [OF assms(2,3,4), of idx r1]
  have l3: "jobs_loop flt idx (AList.update jid (expected_result (bucket_lookup idx p) jkey t) r1) js'
              = Inr res'"
    by simp
  from jobs_loop_map_of_other [OF l3 assms(5)] show ?thesis
    by (simp add: AList.update_conv')
qed

lemma set_update_cases:
  "x \<in> set (AList.update k v al) \<Longrightarrow> x = (k, v) \<or> x \<in> set al"
  by (induction al) (auto split: if_splits)

lemma jobs_loop_entries:
  "jobs_loop flt idx res js = Inr res' \<Longrightarrow> (jid, r) \<in> set res' \<Longrightarrow>
     (jid, r) \<in> set res \<or>
     (\<exists>jkey p t. r = expected_result (bucket_lookup idx p) jkey t)"
proof (induction js arbitrary: res)
  case Nil
  then show ?case by simp
next
  case (Cons row rest)
  from Cons.prems obtain res1 where st: "job_step flt idx res row = Inr res1"
    and lp: "jobs_loop flt idx res1 rest = Inr res'"
    by (auto split: sum.splits)
  from Cons.IH [OF lp Cons.prems(2)] show ?case
  proof
    assume m: "(jid, r) \<in> set res1"
    from job_step_cases [OF st] show ?thesis
    proof (elim disjE conjE exE)
      assume "res1 = res"
      with m show ?thesis by simp
    next
      fix j jkey p t parts
      assume "res1 = AList.update j (expected_result (bucket_lookup idx p) jkey t) res"
      with m set_update_cases [of "(jid, r)" j "expected_result (bucket_lookup idx p) jkey t" res]
      show ?thesis by auto
    qed
  next
    assume "\<exists>jkey p t. r = expected_result (bucket_lookup idx p) jkey t"
    then show ?thesis by blast
  qed
qed

lemma index_loop_bucket_lookup:
  "index_loop flt [] table = Inr idx \<Longrightarrow> bucket_lookup idx p = bucket_of flt p table"
  using index_loop_map_of [of flt "[]" table idx p] by (auto simp: bucket_lookup_def)

lemma series_get_iterrows:
  assumes "has_columns df cs" and "c \<in> set cs" and "row \<in> set (iterrows df)"
  shows "\<exists>v. series_get row c = Inr v"
proof -
  from assms(3) obtain r where r: "r \<in> set (rows df)" "row = zip (columns df) r"
    by (auto simp: iterrows_def)
  with assms(1) have len: "length (columns df) = length r"
    by (auto simp: has_columns_def list_all_iff)
  from assms(1,2) have "c \<in> set (columns df)"
    by (auto simp: has_columns_def list_all_iff)
  with map_of_zip_is_Some [OF len, of c] r show ?thesis
    by (auto simp: series_get_def)
qed

lemma series_get_not_ValueError: "series_get row c \<noteq> Inl (ValueError m)"
  by (simp add: series_get_def split: option.splits)

lemma index_step_not_ValueError: "index_step flt cbp row \<noteq> Inl (ValueError m)"
  using series_get_not_ValueError
  by (auto simp: index_step_def Let_def split: sum.splits error.splits)

lemma index_loop_not_ValueError: "index_loop flt cbp table \<noteq> Inl (ValueError m)"
  using index_step_not_ValueError
  by (induction table arbitrary: cbp) (auto split: sum.splits)

lemma job_step_not_ValueError: "job_step flt idx res row \<noteq> Inl (ValueError m)"
  using series_get_not_ValueError
  by (auto simp: job_step_def split: sum.splits error.splits)

lemma jobs_loop_not_ValueError: "jobs_loop flt idx res js \<noteq> Inl (ValueError m)"
  using job_step_not_ValueError
  by (induction js arbitrary: res) (auto split: sum.splits)

lemma index_step_total:
  assumes "series_get row CANDIDATES_composite_key_col = Inr k"
    and "series_get row CANDIDATES_candidate_id_col = Inr cid"
  shows "\<exists>cbp'. index_step flt cbp row = Inr cbp'"
  using assms parse_not_KeyError [of flt k]
  by (auto simp: index_step_def Let_def split: sum.splits error.splits)

lemma index_loop_total:
  "\<forall>row \<in> set table. (\<exists>k. series_get row CANDIDATES_composite_key_col = Inr k)
        \<and> (\<exists>cid. series_get row CANDIDATES_candidate_id_col = Inr cid)
   \<Longrightarrow> \<exists>idx. index_loop flt cbp table = Inr idx"
proof (induction table arbitrary: cbp)
  case Nil
  then show ?case by simp
next
  case (Cons row rest)
  from Cons.prems obtain k cid where "series_get row CANDIDATES_composite_key_col = Inr k"
    "series_get row CANDIDATES_candidate_id_col = Inr cid" by auto
  from index_step_total [OF this] obtain cbp1 where "index_step flt cbp row = Inr cbp1"
    by blast
  with Cons show ?case by simp
qed

lemma job_step_total:
  assumes "series_get row JOBS_job_id_col = Inr jid"
    and "series_get row JOBS_composite_key_col = Inr k"
  shows "\<exists>res'. job_step flt idx res row = Inr res'"
proof (cases "parse_composite_key flt k")
  case (Inl e)
  from job_step_skipped [OF assms Inl] show ?thesis by blast
next
  case (Inr x)
  then obtain p t parts where "parse_composite_key flt k = Inr (p, t, parts)"
    by (cases x) auto
  from job_step_parsed [OF assms this] show ?thesis by blast
qed

lemma jobs_loop_total:
  "\<forall>row \<in> set js. (\<exists>jid. series_get row JOBS_job_id_col = Inr jid)
        \<and> (\<exists>k. series_get row JOBS_composite_key_col = Inr k)
   \<Longrightarrow> \<exists>res'. jobs_loop flt idx res js = Inr res'"
proof (induction js arbitrary: res)
  case Nil
  then show ?case by simp
next
  case (Cons row rest)
  from Cons.prems obtain jid k where "series_get row JOBS_job_id_col = Inr jid"
    "series_get row JOBS_composite_key_col = Inr k" by auto
  from job_step_total [OF this] obtain res1 where "job_step flt idx res row = Inr res1"
    by blast
  with Cons show ?case by simp
qed

lemma find_matching_total:
  assumes "has_columns candidates_df [CANDIDATES_candidate_id_col, CANDIDATES_composite_key_col]"
    and "has_columns jobs_df [JOBS_job_id_col, JOBS_composite_key_col]"
  shows "\<exists>res. find_matching_candidates_for_all_jobs flt jobs_df candidates_df = Inr res"
proof -
  have "\<exists>idx. index_loop flt [] (iterrows candidates_df) = Inr idx"
    by (rule index_loop_total) (use series_get_iterrows [OF assms(1)] in auto)
  then obtain idx where idx: "index_loop flt [] (iterrows candidates_df) = Inr idx" ..
  have "\<exists>res. jobs_loop flt idx [] (iterrows jobs_df) = Inr res"
    by (rule jobs_loop_total) (use series_get_iterrows [OF assms(2)] in auto)
  with idx show ?thesis
    by (simp add: find_matching_candidates_for_all_jobs_def)
qed

lemma index_step_skipped:
  assumes "series_get row CANDIDATES_composite_key_col = Inr k"
    and "parse_composite_key flt k = Inl e"
  shows "index_step flt cbp row = Inr cbp"
  using assms parse_not_KeyError [of flt k]
  by (cases e) (auto simp: index_step_def)

lemma find_matching_split:
  assumes "find_matching_candidates_for_all_jobs flt jobs_df candidates_df = Inr res"
  obtains idx where "index_loop flt [] (iterrows candidates_df) = Inr idx"
    and "jobs_loop flt idx [] (iterrows jobs_df) = Inr res"
  using assms by (auto simp: find_matching_candidates_for_all_jobs_def split: sum.splits)

lemma valid_entry_Some:
  "valid_entry flt row = Some (p, e) \<Longrightarrow>
     full_row e = row \<and> (\<exists>k parts. series_get row CANDIDATES_composite_key_col = Inr k
        \<and> parse_composite_key flt k = Inr (p, salary e, parts))"
  by (auto simp: valid_entry_def split: sum.splits)

lemma bucket_of_mem:
  "e \<in> set (bucket_of flt p table) \<longleftrightarrow> (\<exists>row \<in> set table. valid_entry flt row = Some (p, e))"
  by (induction table) (auto simp: bucket_of_Cons split: option.splits)

lemma index_loop_valid:
  "index_loop flt cbp table = Inr idx \<Longrightarrow> row \<in> set table
    \<Longrightarrow> series_get row CANDIDATES_composite_key_col = Inr k
    \<Longrightarrow> parse_composite_key flt k = Inr (p, s, parts)
    \<Longrightarrow> \<exists>cid. valid_entry flt row
           = Some (p, \<lparr>candidate_id = cid, salary = s, full_row = row\<rparr>)"
proof (induction table arbitrary: cbp)
  case Nil
  then show ?case by simp
next
  case (Cons r rest)
  from Cons.prems(1) obtain cbp1 where st: "index_step flt cbp r = Inr cbp1"
    and lp: "index_loop flt cbp1 rest = Inr idx"
    by (auto split: sum.splits)
  show ?case
  proof (cases "row = r")
    case True
    with st Cons.prems(3,4) show ?thesis
      by (auto simp: index_step_def valid_entry_def split: sum.splits)
  next
    case False
    with Cons.prems(2) have "row \<in> set rest" by simp
    from Cons.IH [OF lp this Cons.prems(3,4)] show ?thesis .
  qed
qed

lemma zip_same_labels:
  assumes "map snd (zip cs r) = map snd (zip cs r')"
  shows "zip cs r = zip cs r'"
proof -
  from assms have "length (zip cs r) = length (zip cs r')"
    by (metis length_map)
  then have "map fst (zip cs r) = map fst (zip cs r')"
    by (simp add: map_fst_zip_take min_def)
  with assms show ?thesis
    by (metis zip_map_fst_snd)
qed

lemma float_le_trans: "float_le a b \<Longrightarrow> float_le b c \<Longrightarrow> float_le a c"
  by (cases a; cases b; cases c) auto

lemma float_eq_le: "float_eq a b \<Longrightarrow> float_le a b"
  by (cases a) (auto simp: float_eq_def)

lemma bucket_entry_rows:
  assumes idx: "index_loop flt [] (iterrows candidates_df) = Inr idx"
    and cr: "cand_row \<in> set (iterrows candidates_df)"
    and ck: "series_get cand_row CANDIDATES_composite_key_col = Inr ckey"
    and cp: "parse_composite_key flt ckey = Inr (prefix, cceil, cparts)"
  shows "map snd cand_row \<in> set (map (map snd) (select_matches (bucket_lookup idx prefix) target))
           \<longleftrightarrow> float_le cceil target"
proof -
  let ?table = "iterrows candidates_df"
  have bl: "bucket_lookup idx prefix = bucket_of flt prefix ?table"
    by (rule index_loop_bucket_lookup [OF idx])
  from index_loop_valid [OF idx cr ck cp] obtain cid where
    ve: "valid_entry flt cand_row
           = Some (prefix, \<lparr>candidate_id = cid, salary = cceil, full_row = cand_row\<rparr>)"
    by blast
  let ?e = "\<lparr>candidate_id = cid, salary = cceil, full_row = cand_row\<rparr>"
  from ve cr have mem: "?e \<in> set (bucket_of flt prefix ?table)"
    by (auto simp: bucket_of_mem)
  show ?thesis
  proof
    assume "float_le cceil target"
    with mem have "cand_row \<in> set (select_matches (bucket_of flt prefix ?table) target)"
      by (force simp: select_matches_def)
    then show "map snd cand_row
        \<in> set (map (map snd) (select_matches (bucket_lookup idx prefix) target))"
      by (simp add: bl)
  next
    assume "map snd cand_row
        \<in> set (map (map snd) (select_matches (bucket_lookup idx prefix) target))"
    then obtain e where e: "e \<in> set (bucket_of flt prefix ?table)"
      "float_le (salary e) target" "map snd (full_row e) = map snd cand_row"
      by (auto simp: bl select_matches_def)
    from e(1) obtain row where row: "row \<in> set ?table" "valid_entry flt row = Some (prefix, e)"
      by (auto simp: bucket_of_mem)
    from valid_entry_Some [OF row(2)] have fr: "full_row e = row" by simp
    from row(1) cr obtain r r' where "row = zip (columns candidates_df) r"
      "cand_row = zip (columns candidates_df) r'"
      by (auto simp: iterrows_def)
    with e(3) fr have "row = cand_row"
      using zip_same_labels [of "columns candidates_df" r r'] by simp
    with row(2) ve have "salary e = cceil" by auto
    with e(2) show "float_le cceil target" by simp
  qed
qed

lemma bucket_rows_labelled:
  assumes "index_loop flt [] table = Inr idx"
  shows "[] \<notin> set (select_matches (bucket_lookup idx p) t)"
proof
  assume "[] \<in> set (select_matches (bucket_lookup idx p) t)"
  then obtain e where "e \<in> set (bucket_of flt p table)" "full_row e = []"
    by (auto simp: index_loop_bucket_lookup [OF assms] select_matches_def)
  then obtain row where "valid_entry flt row = Some (p, e)"
    by (auto simp: bucket_of_mem)
  from valid_entry_Some [OF this] \<open>full_row e = []\<close> show False
    by (auto simp: series_get_def)
qed

lemma export_step_empty:
  "df_empty (matches r) \<Longrightarrow> export_step flt st (jid, r) = Inr st"
  by (simp add: export_step_def)

lemma export_loop_append:
  "export_loop flt st (xs @ ys) =
     (case export_loop flt st xs of Inl e \<Rightarrow> Inl e | Inr st' \<Rightarrow> export_loop flt st' ys)"
  by (induction xs arbitrary: st) (auto split: sum.splits)

lemma export_loop_all_empty:
  "list_all (\<lambda>item. df_empty (matches (snd item))) res \<Longrightarrow> export_loop flt st res = Inr st"
  by (induction res) (auto simp: export_step_def)

lemma example_index_built:
  "index_loop float_sample [] (iterrows example_candidates) = Inr example_index"
  by (simp add: example_candidates_def example_index_def iterrows_def index_step_def
      series_get_def float_sample_def)

lemma example_results_found:
  "find_matching_candidates_for_all_jobs float_sample example_jobs example_candidates
     = Inr example_results"
  unfolding find_matching_candidates_for_all_jobs_def example_index_built
  by (simp add: example_jobs_def example_index_def example_results_def iterrows_def job_step_def
      job_result_def select_matches_def DataFrame_of_def DataFrame_empty_def
      series_get_def float_sample_def)

lemma example_export:
  "export_to_single_excel float_sample \<lparr>dir_exists = True, makedirs_ok = True, to_excel_ok = True\<rparr>
      example_results
    = Inr \<lparr>written = Some \<lparr>columns = [''job_id'', ''candidate_id'', ''composit_key'', ''extracted_salary''],
              rows = [[Text ''J1'', Num (Finite 1), Text ''12_3_4_2.0'', Num (Finite 2)],
                 [Text ''J2'', Num (Finite 1), Text ''12_3_4_2.0'', Num (Finite 2)],
                 [Text ''J2'', Num (Finite 2), Text ''12_3_4_3.5'', Num (Finite (7 / 2))]]\<rparr>,
          returned = 3\<rparr>"
  by (simp add: export_to_single_excel_def example_results_def export_step_def df_empty_def
      alloc_def setitem_def getitem_cols_def getitem_col_def cell_at_def extracted_salary_def
      concat_frames_def union_columns_def float_sample_def Let_def)

subsection \<open>Claims\<close>

text \<open>
  C1. The claim: each exported row is the candidate's columns with one added column, the
  job identifier, in first position, and no other column is added. The code exports a
  further column: line 167 assigns \<open>extracted_salary\<close> to the frame that line 162 has
  already appended to \<open>all_matches_dfs\<close>, so the column meant for the preview is written
  to the file. On the example the exported table has four columns.
\<close>

theorem export_adds_extracted_salary_column:
  "main float_sample \<lparr>dir_exists = True, makedirs_ok = True, to_excel_ok = True\<rparr>
      example_jobs example_candidates
    = Inr (Some \<lparr>written = Some
             \<lparr>columns = [''job_id'', ''candidate_id'', ''composit_key'', ''extracted_salary''],
              rows = [[Text ''J1'', Num (Finite 1), Text ''12_3_4_2.0'', Num (Finite 2)],
                      [Text ''J2'', Num (Finite 1), Text ''12_3_4_2.0'', Num (Finite 2)],
                      [Text ''J2'', Num (Finite 2), Text ''12_3_4_3.5'', Num (Finite (7 / 2))]]\<rparr>,
           returned = 3\<rparr>)"
proof -
  have "example_results \<noteq> []"
    by (simp add: example_results_def)
  then show ?thesis
    by (simp add: main_def example_results_found example_export)
qed

text \<open>
  C2. For a job whose key parses to \<open>(prefix, target)\<close> (the last job row with its
  identifier) and a candidate row whose key parses to the same prefix, the candidate's
  cells are a row of the job's matches exactly when the candidate's ceiling \<open>\<le>\<close> the
  job's; in particular when the two ceilings are equal. Nothing but prefix and ceiling
  enters the condition.
\<close>

theorem match_iff_ceiling_le:
  assumes "find_matching_candidates_for_all_jobs flt jobs_df candidates_df = Inr res"
    and "iterrows jobs_df = js @ job_row # js'"
    and "series_get job_row JOBS_job_id_col = Inr job_id"
    and "series_get job_row JOBS_composite_key_col = Inr jkey"
    and "parse_composite_key flt jkey = Inr (prefix, target, parts)"
    and "job_id \<notin> set (parsed_job_ids flt js')"
    and "cand_row \<in> set (iterrows candidates_df)"
    and "series_get cand_row CANDIDATES_composite_key_col = Inr ckey"
    and "parse_composite_key flt ckey = Inr (prefix, cceil, cparts)"
  shows "\<exists>r. map_of res job_id = Some r
           \<and> (map snd cand_row \<in> set (rows (matches r)) \<longleftrightarrow> float_le cceil target)
           \<and> (float_eq cceil target \<longrightarrow> map snd cand_row \<in> set (rows (matches r)))"
proof -
  from assms(1) obtain idx where idx: "index_loop flt [] (iterrows candidates_df) = Inr idx"
    and jl: "jobs_loop flt idx [] (iterrows jobs_df) = Inr res"
    by (rule find_matching_split)
  let ?r = "expected_result (bucket_lookup idx prefix) jkey target"
  from jl assms(2) have "jobs_loop flt idx [] (js @ job_row # js') = Inr res" by simp
  from jobs_loop_entry [OF this assms(3,4,5,6)] have m: "map_of res job_id = Some ?r" .
  have iff: "map snd cand_row \<in> set (rows (matches ?r)) \<longleftrightarrow> float_le cceil target"
    using bucket_entry_rows [OF idx assms(7,8,9), of target]
    by (simp add: rows_expected_result)
  with m float_eq_le [of cceil target] show ?thesis by auto
qed

theorem match_iff_ceiling_le_witness:
  "find_matching_candidates_for_all_jobs float_sample example_jobs example_candidates
     = Inr example_results
   \<and> float_eq (Finite (7 / 2)) (Finite (7 / 2))
   \<and> (\<exists>r. map_of example_results (Text ''J2'') = Some r
        \<and> [Num (Finite 2), Text ''12_3_4_3.5''] \<in> set (rows (matches r)))"
proof -
  let ?j1 = "[(''job_id'', Text ''J1''), (''composit_key'', Text ''12_3_4_3.0'')]"
  let ?j2 = "[(''job_id'', Text ''J2''), (''composit_key'', Text ''12_3_4_3.5'')]"
  let ?j3 = "[(''job_id'', Text ''J3''), (''composit_key'', Text ''7_7_7_1.0'')]"
  let ?j4 = "[(''job_id'', Text ''J4''), (''composit_key'', Text ''12_3_4_x'')]"
  let ?c2 = "[(''candidate_id'', Num (Finite 2)), (''composit_key'', Text ''12_3_4_3.5'')]"
  have h2: "iterrows example_jobs = [?j1] @ ?j2 # [?j3, ?j4]"
    by (simp add: example_jobs_def iterrows_def)
  have h3: "series_get ?j2 JOBS_job_id_col = Inr (Text ''J2'')"
    by (simp add: series_get_def)
  have h4: "series_get ?j2 JOBS_composite_key_col = Inr (Text ''12_3_4_3.5'')"
    by (simp add: series_get_def)
  have h5: "parse_composite_key float_sample (Text ''12_3_4_3.5'')
              = Inr (''12_3_4'', Finite (7 / 2), [''12'', ''3'', ''4'', ''3.5''])"
    by (simp add: float_sample_def)
  have h6: "Text ''J2'' \<notin> set (parsed_job_ids float_sample [?j3, ?j4])"
    by (simp add: parsed_job_ids_Cons parsed_job_id_def series_get_def float_sample_def)
  have h7: "?c2 \<in> set (iterrows example_candidates)"
    by (simp add: example_candidates_def iterrows_def)
  have h8: "series_get ?c2 CANDIDATES_composite_key_col = Inr (Text ''12_3_4_3.5'')"
    by (simp add: series_get_def)
  have e: "float_eq (Finite (7 / 2)) (Finite (7 / 2))"
    by (simp add: float_eq_def)
  from match_iff_ceiling_le [OF example_results_found h2 h3 h4 h5 h6 h7 h8 h5] e
    example_results_found
  show ?thesis by auto
qed

text \<open>
  C4. The keys of the results mapping are exactly the identifiers of the job rows whose
  key parses, each once, whatever the match count; a job whose key fails to parse adds no
  entry. When those identifiers are pairwise distinct, the entries are in table order, one
  for each such row.
\<close>

theorem parsed_jobs_appear_once:
  assumes "find_matching_candidates_for_all_jobs flt jobs_df candidates_df = Inr res"
  shows "distinct (map fst res)
       \<and> set (map fst res) = set (parsed_job_ids flt (iterrows jobs_df))
       \<and> (distinct (parsed_job_ids flt (iterrows jobs_df))
            \<longrightarrow> map fst res = parsed_job_ids flt (iterrows jobs_df))"
proof -
  from assms obtain idx where jl: "jobs_loop flt idx [] (iterrows jobs_df) = Inr res"
    by (rule find_matching_split)
  from jobs_loop_keys [OF jl] show ?thesis by simp
qed

theorem parsed_jobs_appear_once_witness:
  "find_matching_candidates_for_all_jobs float_sample example_jobs example_candidates
     = Inr example_results
   \<and> parsed_job_ids float_sample (iterrows example_jobs) = [Text ''J1'', Text ''J2'', Text ''J3'']
   \<and> map fst example_results = [Text ''J1'', Text ''J2'', Text ''J3'']
   \<and> distinct (map fst example_results)"
proof -
  have ids: "parsed_job_ids float_sample (iterrows example_jobs)
               = [Text ''J1'', Text ''J2'', Text ''J3'']"
    by (simp add: example_jobs_def iterrows_def parsed_job_ids_Cons parsed_job_id_def
        series_get_def float_sample_def)
  from parsed_jobs_appear_once [OF example_results_found] ids example_results_found
  show ?thesis by simp
qed

text \<open>
  C5. Two jobs A and B with the same prefix: if B's ceiling \<open>\<le>\<close> A's ceiling, every row of
  B's matches is a row of A's matches.
\<close>

theorem matching_monotonic_in_ceiling:
  assumes "find_matching_candidates_for_all_jobs flt jobs_df candidates_df = Inr res"
    and "iterrows jobs_df = jsA @ rowA # jsA'"
    and "series_get rowA JOBS_job_id_col = Inr idA"
    and "series_get rowA JOBS_composite_key_col = Inr keyA"
    and "parse_composite_key flt keyA = Inr (prefix, ceilingA, partsA)"
    and "idA \<notin> set (parsed_job_ids flt jsA')"
    and "iterrows jobs_df = jsB @ rowB # jsB'"
    and "series_get rowB JOBS_job_id_col = Inr idB"
    and "series_get rowB JOBS_composite_key_col = Inr keyB"
    and "parse_composite_key flt keyB = Inr (prefix, ceilingB, partsB)"
    and "idB \<notin> set (parsed_job_ids flt jsB')"
    and "float_le ceilingB ceilingA"
  shows "\<exists>rA rB. map_of res idA = Some rA \<and> map_of res idB = Some rB
           \<and> set (rows (matches rB)) \<subseteq> set (rows (matches rA))"
proof -
  from assms(1) obtain idx where idx: "index_loop flt [] (iterrows candidates_df) = Inr idx"
    and jl: "jobs_loop flt idx [] (iterrows jobs_df) = Inr res"
    by (rule find_matching_split)
  let ?b = "bucket_lookup idx prefix"
  from jl assms(2) have "jobs_loop flt idx [] (jsA @ rowA # jsA') = Inr res" by simp
  from jobs_loop_entry [OF this assms(3,4,5,6)]
  have mA: "map_of res idA = Some (expected_result ?b keyA ceilingA)" .
  from jl assms(7) have "jobs_loop flt idx [] (jsB @ rowB # jsB') = Inr res" by simp
  from jobs_loop_entry [OF this assms(8,9,10,11)]
  have mB: "map_of res idB = Some (expected_result ?b keyB ceilingB)" .
  have "set (select_matches ?b ceilingB) \<subseteq> set (select_matches ?b ceilingA)"
    using float_le_trans [OF _ assms(12)] by (auto simp: select_matches_def)
  then have "set (rows (matches (expected_result ?b keyB ceilingB)))
      \<subseteq> set (rows (matches (expected_result ?b keyA ceilingA)))"
    by (auto simp: rows_expected_result)
  with mA mB show ?thesis by blast
qed

theorem matching_monotonic_in_ceiling_witness:
  "float_le (Finite 3) (Finite (7 / 2))
   \<and> (\<exists>rA rB. map_of example_results (Text ''J2'') = Some rA
         \<and> map_of example_results (Text ''J1'') = Some rB
         \<and> set (rows (matches rB)) \<subseteq> set (rows (matches rA)))"
proof -
  let ?j1 = "[(''job_id'', Text ''J1''), (''composit_key'', Text ''12_3_4_3.0'')]"
  let ?j2 = "[(''job_id'', Text ''J2''), (''composit_key'', Text ''12_3_4_3.5'')]"
  let ?j3 = "[(''job_id'', Text ''J3''), (''composit_key'', Text ''7_7_7_1.0'')]"
  let ?j4 = "[(''job_id'', Text ''J4''), (''composit_key'', Text ''12_3_4_x'')]"
  have a2: "iterrows example_jobs = [?j1] @ ?j2 # [?j3, ?j4]"
    by (simp add: example_jobs_def iterrows_def)
  have a3: "series_get ?j2 JOBS_job_id_col = Inr (Text ''J2'')"
    by (simp add: series_get_def)
  have a4: "series_get ?j2 JOBS_composite_key_col = Inr (Text ''12_3_4_3.5'')"
    by (simp add: series_get_def)
  have a5: "parse_composite_key float_sample (Text ''12_3_4_3.5'')
              = Inr (''12_3_4'', Finite (7 / 2), [''12'', ''3'', ''4'', ''3.5''])"
    by (simp add: float_sample_def)
  have a6: "Text ''J2'' \<notin> set (parsed_job_ids float_sample [?j3, ?j4])"
    by (simp add: parsed_job_ids_Cons parsed_job_id_def series_get_def float_sample_def)
  have b2: "iterrows example_jobs = [] @ ?j1 # [?j2, ?j3, ?j4]"
    by (simp add: example_jobs_def iterrows_def)
  have b3: "series_get ?j1 JOBS_job_id_col = Inr (Text ''J1'')"
    by (simp add: series_get_def)
  have b4: "series_get ?j1 JOBS_composite_key_col = Inr (Text ''12_3_4_3.0'')"
    by (simp add: series_get_def)
  have b5: "parse_composite_key float_sample (Text ''12_3_4_3.0'')
              = Inr (''12_3_4'', Finite 3, [''12'', ''3'', ''4'', ''3.0''])"
    by (simp add: float_sample_def)
  have b6: "Text ''J1'' \<notin> set (parsed_job_ids float_sample [?j2, ?j3, ?j4])"
    by (simp add: parsed_job_ids_Cons parsed_job_id_def series_get_def float_sample_def)
  have le: "float_le (Finite 3) (Finite (7 / 2))"
    by simp
  from matching_monotonic_in_ceiling
         [OF example_results_found a2 a3 a4 a5 a6 b2 b3 b4 b5 b6 le] le
  show ?thesis by simp
qed

text \<open>
  C6. The index built from a candidates table holds, under each prefix, the entries of the
  valid rows with that prefix in table order, and no bucket for a prefix without a valid
  row; no prefix has two buckets; building it again gives the same index.
\<close>

theorem candidate_index_buckets:
  assumes "index_loop flt [] table = Inr idx"
  shows "map_of idx p = (if bucket_of flt p table = [] then None else Some (bucket_of flt p table))
       \<and> map full_row (bucket_of flt p table)
           = filter (\<lambda>row. map_option fst (valid_entry flt row) = Some p) table
       \<and> distinct (map fst idx)
       \<and> (\<forall>idx'. index_loop flt [] table = Inr idx' \<longrightarrow> idx' = idx)"
  using index_loop_map_of [OF assms, of p] index_loop_distinct [OF assms] assms
  by (simp add: full_row_bucket_of)

theorem candidate_index_buckets_witness:
  "index_loop float_sample [] (iterrows example_candidates) = Inr example_index
   \<and> map_of example_index ''12_3_4''
       = Some (bucket_of float_sample ''12_3_4'' (iterrows example_candidates))
   \<and> map full_row (bucket_of float_sample ''12_3_4'' (iterrows example_candidates))
       = [[(''candidate_id'', Num (Finite 1)), (''composit_key'', Text ''12_3_4_2.0'')],
          [(''candidate_id'', Num (Finite 2)), (''composit_key'', Text ''12_3_4_3.5'')]]
   \<and> map_of example_index ''7_7_7'' = None
   \<and> distinct (map fst example_index)"
proof -
  have m: "map_of example_index ''12_3_4'' \<noteq> None" "map_of example_index ''7_7_7'' = None"
    by (simp_all add: example_index_def)
  have f: "filter (\<lambda>row. map_option fst (valid_entry float_sample row) = Some ''12_3_4'')
             (iterrows example_candidates)
       = [[(''candidate_id'', Num (Finite 1)), (''composit_key'', Text ''12_3_4_2.0'')],
          [(''candidate_id'', Num (Finite 2)), (''composit_key'', Text ''12_3_4_3.5'')]]"
    by (simp add: example_candidates_def iterrows_def valid_entry_def series_get_def
        float_sample_def)
  from candidate_index_buckets [OF example_index_built, of "''12_3_4''"]
    candidate_index_buckets [OF example_index_built, of "''7_7_7''"] m f example_index_built
  show ?thesis by (auto split: if_splits)
qed

text \<open>
  C7. A candidate row whose key fails to parse leaves the index as if the row were absent,
  and so does a job row for the results; the matcher never ends in a \<open>ValueError\<close>, and
  it returns results whenever both tables have their identifier and key columns.
\<close>

theorem record_errors_do_not_escalate:
  "(series_get b CANDIDATES_composite_key_col = Inr k \<and> parse_composite_key flt k = Inl e
      \<longrightarrow> index_loop flt cbp (xs @ b # ys) = index_loop flt cbp (xs @ ys))
   \<and> (series_get jb JOBS_job_id_col = Inr j \<and> series_get jb JOBS_composite_key_col = Inr jk
        \<and> parse_composite_key flt jk = Inl e'
      \<longrightarrow> jobs_loop flt idx res (js @ jb # js') = jobs_loop flt idx res (js @ js'))
   \<and> find_matching_candidates_for_all_jobs flt jobs_df candidates_df \<noteq> Inl (ValueError m)
   \<and> (has_columns candidates_df [CANDIDATES_candidate_id_col, CANDIDATES_composite_key_col]
        \<and> has_columns jobs_df [JOBS_job_id_col, JOBS_composite_key_col]
      \<longrightarrow> (\<exists>r. find_matching_candidates_for_all_jobs flt jobs_df candidates_df = Inr r))"
proof -
  have a: "series_get b CANDIDATES_composite_key_col = Inr k \<and> parse_composite_key flt k = Inl e
      \<longrightarrow> index_loop flt cbp (xs @ b # ys) = index_loop flt cbp (xs @ ys)"
    using index_step_skipped [of b k flt e]
    by (auto simp: index_loop_append split: sum.splits)
  have b: "series_get jb JOBS_job_id_col = Inr j \<and> series_get jb JOBS_composite_key_col = Inr jk
        \<and> parse_composite_key flt jk = Inl e'
      \<longrightarrow> jobs_loop flt idx res (js @ jb # js') = jobs_loop flt idx res (js @ js')"
    using job_step_skipped [of jb j jk flt e' idx]
    by (auto simp: jobs_loop_append split: sum.splits)
  have c: "find_matching_candidates_for_all_jobs flt jobs_df candidates_df \<noteq> Inl (ValueError m)"
    using index_loop_not_ValueError jobs_loop_not_ValueError
    by (auto simp: find_matching_candidates_for_all_jobs_def split: sum.splits)
  from a b c find_matching_total [of candidates_df jobs_df flt] show ?thesis
    by blast
qed

theorem record_errors_do_not_escalate_witness:
  "index_loop float_sample []
      ([[(''candidate_id'', Num (Finite 1)), (''composit_key'', Text ''12_3_4_2.0'')]]
        @ [(''candidate_id'', Num (Finite 4)), (''composit_key'', Text ''12_3_4'')] # [])
     = index_loop float_sample []
         ([[(''candidate_id'', Num (Finite 1)), (''composit_key'', Text ''12_3_4_2.0'')]] @ [])
   \<and> jobs_loop float_sample example_index []
        ([[(''job_id'', Text ''J1''), (''composit_key'', Text ''12_3_4_3.0'')]]
          @ [(''job_id'', Text ''J4''), (''composit_key'', Text ''12_3_4_x'')] # [])
       = jobs_loop float_sample example_index []
           ([[(''job_id'', Text ''J1''), (''composit_key'', Text ''12_3_4_3.0'')]] @ [])
   \<and> find_matching_candidates_for_all_jobs float_sample example_jobs example_candidates
        \<noteq> Inl (ValueError Invalid_key)
   \<and> (\<exists>r. find_matching_candidates_for_all_jobs float_sample example_jobs example_candidates
          = Inr r)"
proof -
  let ?b = "[(''candidate_id'', Num (Finite 4)), (''composit_key'', Text ''12_3_4'')]"
  let ?jb = "[(''job_id'', Text ''J4''), (''composit_key'', Text ''12_3_4_x'')]"
  have c1: "series_get ?b CANDIDATES_composite_key_col = Inr (Text ''12_3_4'')"
    by (simp add: series_get_def)
  have c2: "parse_composite_key float_sample (Text ''12_3_4'') = Inl (ValueError Invalid_key)"
    by simp
  have j1: "series_get ?jb JOBS_job_id_col = Inr (Text ''J4'')"
    by (simp add: series_get_def)
  have j2: "series_get ?jb JOBS_composite_key_col = Inr (Text ''12_3_4_x'')"
    by (simp add: series_get_def)
  have j3: "parse_composite_key float_sample (Text ''12_3_4_x'') = Inl (ValueError Invalid_salary)"
    by (simp add: float_sample_def)
  have hc: "has_columns example_candidates [CANDIDATES_candidate_id_col, CANDIDATES_composite_key_col]"
    by (simp add: has_columns_def example_candidates_def)
  have hj: "has_columns example_jobs [JOBS_job_id_col, JOBS_composite_key_col]"
    by (simp add: has_columns_def example_jobs_def)
  from record_errors_do_not_escalate
         [of ?b "Text ''12_3_4''" float_sample "ValueError Invalid_key" "[]"
             "[[(''candidate_id'', Num (Finite 1)), (''composit_key'', Text ''12_3_4_2.0'')]]" "[]"
             ?jb "Text ''J4''" "Text ''12_3_4_x''" "ValueError Invalid_salary" example_index "[]"
             "[[(''job_id'', Text ''J1''), (''composit_key'', Text ''12_3_4_3.0'')]]" "[]"
             example_jobs example_candidates Invalid_key]
    c1 c2 j1 j2 j3 hc hj
  show ?thesis by simp
qed

text \<open>
  C8. A job whose key parses and whose prefix has no bucket in the index gets a result with
  an empty matches table and count zero.
\<close>

theorem job_without_bucket_has_zero_matches:
  assumes "index_loop flt [] (iterrows candidates_df) = Inr idx"
    and "find_matching_candidates_for_all_jobs flt jobs_df candidates_df = Inr res"
    and "iterrows jobs_df = js @ job_row # js'"
    and "series_get job_row JOBS_job_id_col = Inr job_id"
    and "series_get job_row JOBS_composite_key_col = Inr jkey"
    and "parse_composite_key flt jkey = Inr (prefix, target, parts)"
    and "job_id \<notin> set (parsed_job_ids flt js')"
    and "map_of idx prefix = None"
  shows "map_of res job_id
           = Some \<lparr>job_key = jkey, target_salary = target, matches = DataFrame_empty, count = 0\<rparr>
         \<and> rows DataFrame_empty = [] \<and> df_empty DataFrame_empty"
proof -
  from assms(1,2) have jl: "jobs_loop flt idx [] (iterrows jobs_df) = Inr res"
    by (simp add: find_matching_candidates_for_all_jobs_def)
  with assms(3) have "jobs_loop flt idx [] (js @ job_row # js') = Inr res" by simp
  from jobs_loop_entry [OF this assms(4,5,6,7)] assms(8) show ?thesis
    by (simp add: expected_result_def bucket_lookup_def DataFrame_empty_def df_empty_def)
qed

theorem job_without_bucket_has_zero_matches_witness:
  "map_of example_index ''7_7_7'' = None
   \<and> map_of example_results (Text ''J3'')
       = Some \<lparr>job_key = Text ''7_7_7_1.0'', target_salary = Finite 1,
               matches = DataFrame_empty, count = 0\<rparr>"
proof -
  let ?j1 = "[(''job_id'', Text ''J1''), (''composit_key'', Text ''12_3_4_3.0'')]"
  let ?j2 = "[(''job_id'', Text ''J2''), (''composit_key'', Text ''12_3_4_3.5'')]"
  let ?j3 = "[(''job_id'', Text ''J3''), (''composit_key'', Text ''7_7_7_1.0'')]"
  let ?j4 = "[(''job_id'', Text ''J4''), (''composit_key'', Text ''12_3_4_x'')]"
  have h3: "iterrows example_jobs = [?j1, ?j2] @ ?j3 # [?j4]"
    by (simp add: example_jobs_def iterrows_def)
  have h4: "series_get ?j3 JOBS_job_id_col = Inr (Text ''J3'')"
    by (simp add: series_get_def)
  have h5: "series_get ?j3 JOBS_composite_key_col = Inr (Text ''7_7_7_1.0'')"
    by (simp add: series_get_def)
  have h6: "parse_composite_key float_sample (Text ''7_7_7_1.0'')
              = Inr (''7_7_7'', Finite 1, [''7'', ''7'', ''7'', ''1.0''])"
    by (simp add: float_sample_def)
  have h7: "Text ''J3'' \<notin> set (parsed_job_ids float_sample [?j4])"
    by (simp add: parsed_job_ids_Cons parsed_job_id_def series_get_def float_sample_def)
  have h8: "map_of example_index ''7_7_7'' = None"
    by (simp add: example_index_def)
  from job_without_bucket_has_zero_matches
         [OF example_index_built example_results_found h3 h4 h5 h6 h7 h8] h8
  show ?thesis by simp
qed

text \<open>
  C9. A result with an empty matches table changes nothing in the export: the outcome is
  that of the results without it. When every result has an empty matches table, no table
  is written and the export returns 0.
\<close>

theorem zero_match_jobs_emit_nothing:
  "(df_empty (matches r) \<longrightarrow>
      export_to_single_excel flt env (xs @ (jid, r) # ys)
        = export_to_single_excel flt env (xs @ ys))
   \<and> (list_all (\<lambda>item. df_empty (matches (snd item))) res \<longrightarrow>
        export_to_single_excel flt env res = Inr \<lparr>written = None, returned = 0\<rparr>)"
proof -
  have "df_empty (matches r) \<longrightarrow>
      export_loop flt st (xs @ (jid, r) # ys) = export_loop flt st (xs @ ys)" for st
    by (auto simp: export_loop_append export_step_empty split: sum.splits)
  then show ?thesis
    by (auto simp: export_to_single_excel_def export_loop_all_empty)
qed

theorem zero_match_jobs_emit_nothing_witness:
  "export_to_single_excel float_sample
      \<lparr>dir_exists = True, makedirs_ok = True, to_excel_ok = True\<rparr>
      (take 2 example_results @ (fst (example_results ! 2), snd (example_results ! 2)) # [])
     = export_to_single_excel float_sample
         \<lparr>dir_exists = True, makedirs_ok = True, to_excel_ok = True\<rparr>
         (take 2 example_results @ [])
   \<and> df_empty (matches (snd (example_results ! 2)))
   \<and> export_to_single_excel float_sample
        \<lparr>dir_exists = True, makedirs_ok = True, to_excel_ok = True\<rparr>
        (drop 2 example_results)
       = Inr \<lparr>written = None, returned = 0\<rparr>"
proof -
  have e: "df_empty (matches (snd (example_results ! 2)))"
    by (simp add: example_results_def df_empty_def)
  have a: "list_all (\<lambda>item. df_empty (matches (snd item))) (drop 2 example_results)"
    by (simp add: example_results_def df_empty_def)
  from zero_match_jobs_emit_nothing
         [of "snd (example_results ! 2)" float_sample
             "\<lparr>dir_exists = True, makedirs_ok = True, to_excel_ok = True\<rparr>"
             "take 2 example_results" "fst (example_results ! 2)" "[]"
             "drop 2 example_results"] e a
  show ?thesis by simp
qed

text \<open>
  C10. Every result in the matcher's output has \<open>count\<close> equal to the number of rows of its
  matches table, and the table is empty exactly when the count is zero.
\<close>

theorem count_is_number_of_match_rows:
  assumes "find_matching_candidates_for_all_jobs flt jobs_df candidates_df = Inr res"
    and "(job_id, r) \<in> set res"
  shows "count r = length (rows (matches r)) \<and> (df_empty (matches r) \<longleftrightarrow> count r = 0)"
proof -
  from assms(1) obtain idx where idx: "index_loop flt [] (iterrows candidates_df) = Inr idx"
    and jl: "jobs_loop flt idx [] (iterrows jobs_df) = Inr res"
    by (rule find_matching_split)
  from jobs_loop_entries [OF jl assms(2)] obtain jkey p t where
    r: "r = expected_result (bucket_lookup idx p) jkey t" by auto
  let ?ms = "select_matches (bucket_lookup idx p) t"
  have c: "count r = length (rows (matches r))"
    by (simp add: r rows_expected_result) (simp add: expected_result_def)
  have "?ms \<noteq> [] \<Longrightarrow> hd ?ms \<noteq> []"
    using bucket_rows_labelled [OF idx, of p t] by (cases ?ms) auto
  then have "df_empty (matches r) \<longleftrightarrow> ?ms = []"
    by (auto simp: r expected_result_def df_empty_def DataFrame_of_def DataFrame_empty_def)
  with c show ?thesis by (simp add: r rows_expected_result)
qed

theorem count_is_number_of_match_rows_witness:
  "(fst (example_results ! 1), snd (example_results ! 1)) \<in> set example_results
   \<and> count (snd (example_results ! 1)) = 2
   \<and> length (rows (matches (snd (example_results ! 1)))) = 2
   \<and> \<not> df_empty (matches (snd (example_results ! 1)))"
proof -
  have m: "(fst (example_results ! 1), snd (example_results ! 1)) \<in> set example_results"
    by (simp add: example_results_def)
  have c: "count (snd (example_results ! 1)) = 2"
    by (simp add: example_results_def)
  from count_is_number_of_match_rows [OF example_results_found m] m c
  show ?thesis by simp
qed

end
